theory Spec2Isabelle
  imports Complex_Main "HOL-Library.Sublist"
begin

section \<open>Python strings\<close>

text \<open>
  A Python \<open>str\<close> is modelled as a \<open>string\<close>; one \<open>char\<close> stands for one code point
  in the range 0..255, so \<open>length\<close> is Python's \<open>len\<close>. The character classes below are
  Python's on that range.
\<close>

definition isspace :: "char \<Rightarrow> bool" where
  \<comment> \<open>\<open>str.isspace\<close>: code points 9..13, 28..32, 133 and 160.\<close>
  "isspace c = (let n = (of_char c :: nat) in
     (9 \<le> n \<and> n \<le> 13) \<or> (28 \<le> n \<and> n \<le> 32) \<or> n = 133 \<or> n = 160)"

definition strip :: "string \<Rightarrow> string" where
  \<comment> \<open>\<open>s.strip()\<close>: leading and trailing white space removed.\<close>
  "strip s = rev (dropWhile isspace (rev (dropWhile isspace s)))"

definition lower_char :: "char \<Rightarrow> char" where
  \<comment> \<open>\<open>c.lower()\<close>: A..Z and the capital letters 192..222 (but 215) move up by 32.\<close>
  "lower_char c = (let n = (of_char c :: nat) in
     if (65 \<le> n \<and> n \<le> 90) \<or> (192 \<le> n \<and> n \<le> 222 \<and> n \<noteq> 215)
     then char_of (n + 32) else c)"

definition lower :: "string \<Rightarrow> string" where
  "lower s = map lower_char s"

fun contains :: "string \<Rightarrow> string \<Rightarrow> bool" where
  \<comment> \<open>\<open>contains sub s\<close> is Python's \<open>sub in s\<close>.\<close>
  "contains sub [] = (sub = [])"
| "contains sub (c # cs) = (prefix sub (c # cs) \<or> contains sub cs)"

fun str_find :: "string \<Rightarrow> string \<Rightarrow> int" where
  \<comment> \<open>\<open>str_find sub s\<close> is \<open>s.find(sub)\<close>: the lowest index of \<open>sub\<close> in \<open>s\<close>, or -1.\<close>
  "str_find sub [] = (if sub = [] then 0 else - 1)"
| "str_find sub (c # cs) =
     (if prefix sub (c # cs) then 0
      else (let r = str_find sub cs in if r < 0 then - 1 else r + 1))"

function replace :: "string \<Rightarrow> string \<Rightarrow> string \<Rightarrow> string" where
  \<comment> \<open>\<open>replace old new s\<close> is \<open>s.replace(old, new)\<close>: the occurrences of \<open>old\<close> are
      replaced left to right, without overlap.\<close>
  "replace [] new s = new @ concat (map (\<lambda>c. c # new) s)"
| "replace (a # old) new [] = []"
| "replace (a # old) new (c # cs) =
     (if prefix (a # old) (c # cs)
      then new @ replace (a # old) new (drop (length old) cs)
      else c # replace (a # old) new cs)"
  by pat_completeness auto
termination
  by (relation "measure (\<lambda>(old, new, s). length s)") auto

fun split_once :: "string \<Rightarrow> string \<Rightarrow> string list" where
  \<comment> \<open>\<open>split_once sep s\<close> is \<open>s.split(sep, 1)\<close> for a non-empty \<open>sep\<close>: \<open>[s]\<close> when
      \<open>sep\<close> does not occur, else the text before and after its first occurrence.\<close>
  "split_once sep [] = [[]]"
| "split_once sep (c # cs) =
     (if prefix sep (c # cs) then [[], drop (length sep) (c # cs)]
      else (case split_once sep cs of
              [] \<Rightarrow> [[c]]
            | p # rest \<Rightarrow> (c # p) # rest))"

definition digit_char :: "nat \<Rightarrow> char" where
  "digit_char d = char_of (48 + d)"

fun str_nat :: "nat \<Rightarrow> string" where
  \<comment> \<open>\<open>str(n)\<close> for a non-negative integer: its decimal digits.\<close>
  "str_nat n = (if n < 10 then [digit_char n] else str_nat (n div 10) @ [digit_char (n mod 10)])"

declare str_nat.simps [simp del]

section \<open>Proof ledger (proof\_ledger.py)\<close>

text \<open>
  \<open>hashlib.sha256(data.encode('utf-8')).hexdigest()\<close> and
  \<open>json.dumps(..., sort_keys=True)\<close> are library calls. They are parameters of the
  model: \<open>sha\<close> is the digest, and \<open>dumps\<close> is the encoder applied to the
  dictionary with the keys timestamp, premises, inference\_steps, conclusion,
  counterexample and prev\_hash (its six arguments, in that order).
  \<open>datetime.utcnow().isoformat()\<close> reads the clock: the time stamp is an argument of
  \<open>append\<close>.
\<close>

type_synonym digest = "string \<Rightarrow> string"

type_synonym encoder =
  "string \<Rightarrow> string list \<Rightarrow> string list \<Rightarrow> string \<Rightarrow> string option \<Rightarrow> string option \<Rightarrow> string"

record ProofRecord =
  pr_timestamp :: string
  pr_premises :: "string list"
  pr_inference_steps :: "string list"
  pr_conclusion :: string
  pr_counterexample :: "string option"
  pr_hash :: string
  pr_prev_hash :: "string option"

record ProofLedger =
  records :: "ProofRecord list"
  genesis_hash :: string

definition compute_hash :: "digest \<Rightarrow> string \<Rightarrow> string" where
  \<comment> \<open>The \<open>isinstance\<close> test is the type of the argument.\<close>
  "compute_hash sha data = sha data"

definition ProofLedger_init :: "digest \<Rightarrow> ProofLedger" where
  "ProofLedger_init sha =
     \<lparr>records = [], genesis_hash = compute_hash sha ''GENESIS_FRANKENSTEIN_DIVINE_LOGIC''\<rparr>"

definition record_digest :: "digest \<Rightarrow> encoder \<Rightarrow> ProofRecord \<Rightarrow> string" where
  \<comment> \<open>The hash \<open>verify_integrity\<close> recomputes from a record's stored fields.\<close>
  "record_digest sha dumps r =
     compute_hash sha
       (dumps (pr_timestamp r) (pr_premises r) (pr_inference_steps r) (pr_conclusion r)
          (pr_counterexample r) (pr_prev_hash r))"

definition append ::
  "digest \<Rightarrow> encoder \<Rightarrow> string \<Rightarrow> string list \<Rightarrow> string list \<Rightarrow> string \<Rightarrow> string option \<Rightarrow>
   ProofLedger \<Rightarrow> ProofRecord \<times> ProofLedger" where
  "append sha dumps timestamp premises inference_steps conclusion counterexample L =
     (let prev_hash = (if records L \<noteq> [] then pr_hash (last (records L)) else genesis_hash L);
          record_data = dumps timestamp premises inference_steps conclusion counterexample
                          (Some prev_hash);
          record_hash = compute_hash sha record_data;
          record = \<lparr>pr_timestamp = timestamp, pr_premises = premises,
                    pr_inference_steps = inference_steps, pr_conclusion = conclusion,
                    pr_counterexample = counterexample, pr_hash = record_hash,
                    pr_prev_hash = Some prev_hash\<rparr>
      in (record, L\<lparr>records := records L @ [record]\<rparr>))"

fun verify_loop ::
  "digest \<Rightarrow> encoder \<Rightarrow> nat \<Rightarrow> string \<Rightarrow> ProofRecord list \<Rightarrow> bool \<times> string" where
  \<comment> \<open>The \<open>for i, record in enumerate(self._records)\<close> loop, from index \<open>i\<close> with the
      running \<open>prev_hash\<close>.\<close>
  "verify_loop sha dumps i prev_hash [] = (True, ''Ledger integrity verified'')"
| "verify_loop sha dumps i prev_hash (r # rs) =
     (if pr_prev_hash r \<noteq> Some prev_hash
      then (False, ''Chain broken at record '' @ str_nat i)
      else if pr_hash r \<noteq> record_digest sha dumps r
      then (False, ''Record '' @ str_nat i @ '' hash mismatch - content tampered'')
      else verify_loop sha dumps (Suc i) (pr_hash r) rs)"

definition verify_integrity :: "digest \<Rightarrow> encoder \<Rightarrow> ProofLedger \<Rightarrow> bool \<times> string" where
  "verify_integrity sha dumps L =
     (if records L = [] then (True, ''Empty ledger is valid'')
      else verify_loop sha dumps 0 (genesis_hash L) (records L))"

definition get_records :: "ProofLedger \<Rightarrow> ProofRecord list" where
  "get_records L = records L"

definition get_record_count :: "ProofLedger \<Rightarrow> nat" where
  "get_record_count L = length (records L)"

text \<open>One call of \<open>append\<close>: its time stamp and its four arguments.\<close>

type_synonym append_call = "string \<times> string list \<times> string list \<times> string \<times> string option"

definition append_call :: "digest \<Rightarrow> encoder \<Rightarrow> ProofLedger \<Rightarrow> append_call \<Rightarrow> ProofLedger" where
  "append_call sha dumps L c =
     (case c of (ts, premises, steps, conclusion, cex) \<Rightarrow>
        snd (append sha dumps ts premises steps conclusion cex L))"

definition append_all :: "digest \<Rightarrow> encoder \<Rightarrow> append_call list \<Rightarrow> ProofLedger \<Rightarrow> ProofLedger" where
  "append_all sha dumps calls L = foldl (append_call sha dumps) L calls"

definition chain_ok :: "digest \<Rightarrow> encoder \<Rightarrow> ProofLedger \<Rightarrow> bool" where
  \<comment> \<open>The ledger's invariant: the loop of \<open>verify_integrity\<close> passes, and each record's
      \<open>prev_hash\<close> is its predecessor's \<open>hash\<close> (the genesis hash for the first).\<close>
  "chain_ok sha dumps L =
     (verify_loop sha dumps 0 (genesis_hash L) (records L) = (True, ''Ledger integrity verified'')
      \<and> map pr_prev_hash (records L) =
          map Some (butlast (genesis_hash L # map pr_hash (records L))))"

text \<open>
  Tampering with a stored record: \<open>one_field_changed r r'\<close> says that \<open>r'\<close> is
  \<open>r\<close> with exactly one of its seven fields set to a different value.
  \<open>hashed_fields\<close> are the six fields that enter the digest. \<open>no_collision\<close> is
  what detection needs of the library: when the change leaves \<open>hash\<close> and
  \<open>prev_hash\<close> alone, so that one of the five other hashed fields was changed, the
  digest of the changed record differs from the digest of the stored one. A change of
  \<open>hash\<close> or of \<open>prev_hash\<close> asks nothing of the digest.
\<close>

definition hashed_fields ::
  "ProofRecord \<Rightarrow> string \<times> string list \<times> string list \<times> string \<times> string option \<times> string option" where
  "hashed_fields r =
     (pr_timestamp r, pr_premises r, pr_inference_steps r, pr_conclusion r,
      pr_counterexample r, pr_prev_hash r)"

definition one_field_changed :: "ProofRecord \<Rightarrow> ProofRecord \<Rightarrow> bool" where
  "one_field_changed r r' =
     (r' \<noteq> r \<and>
      (r' = r\<lparr>pr_timestamp := pr_timestamp r'\<rparr>
       \<or> r' = r\<lparr>pr_premises := pr_premises r'\<rparr>
       \<or> r' = r\<lparr>pr_inference_steps := pr_inference_steps r'\<rparr>
       \<or> r' = r\<lparr>pr_conclusion := pr_conclusion r'\<rparr>
       \<or> r' = r\<lparr>pr_counterexample := pr_counterexample r'\<rparr>
       \<or> r' = r\<lparr>pr_hash := pr_hash r'\<rparr>
       \<or> r' = r\<lparr>pr_prev_hash := pr_prev_hash r'\<rparr>))"

definition no_collision :: "digest \<Rightarrow> encoder \<Rightarrow> ProofRecord \<Rightarrow> ProofRecord \<Rightarrow> bool" where
  "no_collision sha dumps r r' =
     (pr_hash r' = pr_hash r \<and> pr_prev_hash r' = pr_prev_hash r \<longrightarrow>
      record_digest sha dumps r' \<noteq> record_digest sha dumps r)"

section \<open>Axiom kernel (axiom\_kernel.py)\<close>

datatype LogicalLaw = IDENTITY | NON_CONTRADICTION | EXCLUDED_MIDDLE | CAUSALITY

datatype SurvivalAxiom = COLLECTIVE_COHERENCE | SYSTEMIC_BALANCE | COOPERATION_OVER_EXTRACTION

record AxiomKernel =
  logical_laws :: "LogicalLaw list"
  survival_axioms :: "SurvivalAxiom list"
  immutable :: bool

definition AxiomKernel_init :: AxiomKernel where
  "AxiomKernel_init =
     \<lparr>logical_laws = [IDENTITY, NON_CONTRADICTION, EXCLUDED_MIDDLE, CAUSALITY],
      survival_axioms = [COLLECTIVE_COHERENCE, SYSTEMIC_BALANCE, COOPERATION_OVER_EXTRACTION],
      immutable = True\<rparr>"

definition validate_against_axioms :: "string \<Rightarrow> bool \<times> string" where
  \<comment> \<open>The method reads no attribute of the kernel, so the model takes the proposition
      only. The \<open>isinstance\<close> test is the type of the argument.\<close>
  "validate_against_axioms proposition =
     (if proposition = [] \<or> strip proposition = []
      then (False, ''Empty proposition violates identity'')
      else if length proposition > 10000
      then (False, ''Proposition too long'')
      else (True, ''Passes axiom validation''))"

definition is_immutable :: "AxiomKernel \<Rightarrow> bool" where
  "is_immutable k = immutable k"

section \<open>Truth validator (truth\_validator.py)\<close>

datatype ValidationResult = TRUE | FALSE | UNKNOWN | CONTRADICTION

record ValidationResponse =
  vr_result :: ValidationResult
  vr_confidence :: real
  vr_reasoning :: string
  vr_evidence :: "string list"

text \<open>The validator's only attribute is the dictionary \<open>_established_facts\<close>.\<close>

type_synonym TruthValidator = "string \<rightharpoonup> ValidationResponse"

definition load_core_facts :: TruthValidator where
  "load_core_facts =
     [''cat_is_animal'' \<mapsto>
        \<lparr>vr_result = TRUE, vr_confidence = 1.0,
         vr_reasoning = ''Cats are mammals, mammals are animals'',
         vr_evidence = [''biological taxonomy'', ''scientific classification'']\<rparr>,
      ''chair_is_furniture'' \<mapsto>
        \<lparr>vr_result = TRUE, vr_confidence = 1.0,
         vr_reasoning = ''Chairs are designed objects for sitting, classified as furniture'',
         vr_evidence = [''object classification'', ''functional definition'']\<rparr>,
      ''animal_not_furniture'' \<mapsto>
        \<lparr>vr_result = TRUE, vr_confidence = 1.0,
         vr_reasoning = ''Animals are living beings, furniture are inanimate objects - mutually exclusive categories'',
         vr_evidence = [''biological vs artificial classification'']\<rparr>]"

definition remove_articles :: "string \<Rightarrow> string" where
  \<comment> \<open>\<open>statement.replace("a ", "").replace("an ", "").replace("the ", "")\<close>\<close>
  "remove_articles statement =
     replace ''the '' [] (replace ''an '' [] (replace ''a '' [] statement))"

definition normalize_to_key :: "string \<Rightarrow> string" where
  "normalize_to_key statement0 =
     (let statement = remove_articles statement0 in
      if contains ''cat'' statement \<and> contains ''animal'' statement \<and> contains ''is'' statement
      then ''cat_is_animal''
      else if contains ''cat'' statement \<and> contains ''chair'' statement \<and> contains ''is'' statement
      then ''cat_is_chair''
      else if contains ''chair'' statement \<and> contains ''furniture'' statement
              \<and> contains ''is'' statement
      then ''chair_is_furniture''
      else replace '' '' ''_'' statement)"

text \<open>
  The dictionary \<open>_parse_statement\<close> returns, by its \<open>"type"\<close>: a classification
  carries subject, predicate and relation; the others carry the statement.
\<close>

datatype parsed =
    Classification string string string
  | Mathematical string
  | Physical string
  | General string

definition parse_statement :: "string \<Rightarrow> parsed option" where
  "parse_statement statement =
     (let parts = split_once '' is '' statement in
      if contains '' is '' statement \<and> length parts = 2
      then Some (Classification
                   (replace ''an '' [] (replace ''a '' [] (strip (parts ! 0))))
                   (replace ''an '' [] (replace ''a '' [] (strip (parts ! 1))))
                   ''is'')
      else if list_ex (\<lambda>op. contains op statement) [''+'', ''-'', ''*'', ''/'', ''='', ''equals'']
      then Some (Mathematical statement)
      else if list_ex (\<lambda>keyword. contains keyword statement)
                [''weighs'', ''measures'', ''temperature'', ''speed'', ''distance'']
      then Some (Physical statement)
      else Some (General statement))"

definition validate_classification :: "string \<Rightarrow> string \<Rightarrow> ValidationResponse" where
  \<comment> \<open>\<open>subject_facts\<close> and \<open>predicate_facts\<close> are computed by the source and never
      read; \<open>_get_category_facts\<close> changes nothing.\<close>
  "validate_classification subject predicate =
     (if subject = ''cat'' \<and> predicate = ''animal''
      then \<lparr>vr_result = TRUE, vr_confidence = 1.0,
            vr_reasoning = subject @ '' is classified as '' @ predicate @ '' in biological taxonomy'',
            vr_evidence = [''biological classification'']\<rparr>
      else if subject = ''cat'' \<and> (predicate = ''chair'' \<or> predicate = ''furniture'')
      then \<lparr>vr_result = FALSE, vr_confidence = 1.0,
            vr_reasoning = subject @ '' is a living animal, '' @ predicate
                             @ '' is an inanimate object - contradiction'',
            vr_evidence = [''biological vs artificial classification'', ''living vs non-living'']\<rparr>
      else if subject = ''co2'' \<and> contains ''safe store'' predicate \<and> contains ''oxygen'' predicate
      then \<lparr>vr_result = FALSE, vr_confidence = 0.9,
            vr_reasoning = ''CO2 is not a safe store of oxygen - oxygen in CO2 is bound to carbon and not bioavailable'',
            vr_evidence = [''chemistry'', ''molecular structure'']\<rparr>
      else \<lparr>vr_result = UNKNOWN, vr_confidence = 0.3,
            vr_reasoning = ''Insufficient knowledge to validate: '' @ subject @ '' is '' @ predicate,
            vr_evidence = []\<rparr>)"

definition validate_mathematical :: "string \<Rightarrow> ValidationResponse" where
  "validate_mathematical expression =
     (if contains ''5 + 5'' expression \<or> contains ''5+5'' expression
      then (if contains ''10'' expression \<or> contains ''equals 10'' expression
            then \<lparr>vr_result = TRUE, vr_confidence = 1.0,
                  vr_reasoning = ''5 + 5 = 10 is mathematically correct'',
                  vr_evidence = [''arithmetic'']\<rparr>
            else \<lparr>vr_result = FALSE, vr_confidence = 1.0,
                  vr_reasoning = ''5 + 5 does not equal the stated result'',
                  vr_evidence = [''arithmetic'']\<rparr>)
      else \<lparr>vr_result = UNKNOWN, vr_confidence = 0.2,
            vr_reasoning = ''Mathematical validation not implemented for this expression'',
            vr_evidence = []\<rparr>)"

definition validate_physical :: ValidationResponse where
  "validate_physical =
     \<lparr>vr_result = UNKNOWN, vr_confidence = 0.2,
      vr_reasoning = ''Physical validation system not fully implemented'',
      vr_evidence = []\<rparr>"

definition simulate_llm_validation :: "string \<Rightarrow> ValidationResponse" where
  "simulate_llm_validation statement =
     \<lparr>vr_result = UNKNOWN, vr_confidence = 0.1,
      vr_reasoning = ''LLM validation unavailable - using rule-based validation only'',
      vr_evidence = [''no_llm'']\<rparr>"

definition validate_statement :: "TruthValidator \<Rightarrow> string \<Rightarrow> ValidationResponse" where
  "validate_statement facts statement =
     (let statement_lower = strip (lower statement);
          fact_key = normalize_to_key statement_lower
      in case facts fact_key of
           Some established \<Rightarrow> established
         | None \<Rightarrow>
            (case parse_statement statement_lower of
               None \<Rightarrow> \<lparr>vr_result = UNKNOWN, vr_confidence = 0.0,
                         vr_reasoning = ''Cannot parse statement structure'',
                         vr_evidence = []\<rparr>
             | Some (Classification subject predicate relation) \<Rightarrow>
                 validate_classification subject predicate
             | Some (Mathematical expression) \<Rightarrow> validate_mathematical expression
             | Some (Physical claim) \<Rightarrow> validate_physical
             | Some (General content) \<Rightarrow> simulate_llm_validation statement))"

definition add_validated_fact ::
  "string \<Rightarrow> ValidationResponse \<Rightarrow> TruthValidator \<Rightarrow> TruthValidator" where
  "add_validated_fact statement validation facts =
     (if vr_result validation \<noteq> TRUE then facts
      else facts(normalize_to_key (lower statement) \<mapsto> validation))"

section \<open>Contradiction engine (contradiction\_engine.py)\<close>

datatype ContradictionType = DIRECT | LOGICAL | TEMPORAL | SURVIVAL

fun type_value :: "ContradictionType \<Rightarrow> string" where
  "type_value DIRECT = ''Direct logical contradiction''"
| "type_value LOGICAL = ''Logical contradiction through inference''"
| "type_value TEMPORAL = ''Temporal contradiction (time-based conflict)''"
| "type_value SURVIVAL = ''Violates survival axioms''"

record Proposition =
  p_id :: string
  p_content :: string
  p_source :: string
  p_timestamp :: string
  p_confidence :: real

text \<open>
  A severity is one of the float literals 1.0, 0.95, 0.9 and 0.8, and the only
  operation on it is the comparison with the literal 0.7: the reals of the same
  decimals compare the same way.
\<close>

record Contradiction =
  c_type :: ContradictionType
  c_propositions :: "Proposition list"
  c_explanation :: string
  c_severity :: real

text \<open>
  \<open>_known_propositions\<close> is a Python set of propositions, equal when their ids are
  equal. It is kept as a list without two equal ids; the loop over it visits the
  propositions in the order they were added (Python fixes no order for a set).
\<close>

record ContradictionEngine =
  known_propositions :: "Proposition list"
  detected_contradictions :: "Contradiction list"
  truth_validator :: TruthValidator

definition ContradictionEngine_init :: ContradictionEngine where
  "ContradictionEngine_init =
     \<lparr>known_propositions = [], detected_contradictions = [],
      truth_validator = load_core_facts\<rparr>"

definition set_add :: "Proposition \<Rightarrow> Proposition list \<Rightarrow> Proposition list" where
  \<comment> \<open>\<open>set.add\<close>: a proposition whose id is already there is not added.\<close>
  "set_add prop known =
     (if list_ex (\<lambda>q. p_id q = p_id prop) known then known else known @ [prop])"

definition quote :: string where
  \<comment> \<open>The apostrophe.\<close>
  "quote = [CHR 0x27]"

definition newline :: string where
  "newline = [CHR 0x0A]"

definition negations :: "string list" where
  "negations = [''not'', ''no'', ''never'', ''cannot'', ''can'' @ quote @ ''t'',
                ''won'' @ quote @ ''t'', ''don'' @ quote @ ''t'', ''doesn'' @ quote @ ''t'']"

definition opposites :: "(string \<times> string) list" where
  "opposites =
     [(''builds'', ''destroys''), (''creates'', ''destroys''), (''strengthens'', ''weakens''),
      (''supports'', ''undermines''), (''helps'', ''harms''), (''improves'', ''degrades''),
      (''stabilizes'', ''destabilizes''), (''maintains'', ''breaks'')]"

definition negation_hit :: "string \<Rightarrow> string \<Rightarrow> string \<Rightarrow> bool" where
  \<comment> \<open>One round of the loop over \<open>negations\<close>: whether it returns True.\<close>
  "negation_hit content1 content2 neg =
     ((contains neg content1 \<and> \<not> contains neg content2 \<and>
         (let cleaned1 = strip (replace neg [] content1)
          in contains cleaned1 content2 \<or> contains content2 cleaned1))
      \<or> (contains neg content2 \<and> \<not> contains neg content1 \<and>
         (let cleaned2 = strip (replace neg [] content2)
          in contains cleaned2 content1 \<or> contains content1 cleaned2)))"

definition same_subject :: "string \<Rightarrow> string \<Rightarrow> string \<Rightarrow> string \<Rightarrow> bool" where
  \<comment> \<open>\<open>same_subject v1 content1 v2 content2\<close>: both verbs are found past the first
      character, and the stripped texts before them are equal or one contains the other.\<close>
  "same_subject v1 content1 v2 content2 =
     (let idx1 = str_find v1 content1; idx2 = str_find v2 content2 in
      idx1 > 0 \<and> idx2 > 0 \<and>
      (let subject1 = strip (take (nat idx1) content1);
           subject2 = strip (take (nat idx2) content2)
       in subject1 = subject2 \<or> contains subject1 subject2 \<or> contains subject2 subject1))"

definition opposite_hit :: "string \<Rightarrow> string \<Rightarrow> string \<times> string \<Rightarrow> bool" where
  \<comment> \<open>One round of the loop over \<open>opposites\<close>: whether it returns True.\<close>
  "opposite_hit content1 content2 pair =
     (case pair of (pos, neg) \<Rightarrow>
        (contains pos content1 \<and> contains neg content2 \<and> same_subject pos content1 neg content2)
        \<or> (contains neg content1 \<and> contains pos content2 \<and> same_subject neg content1 pos content2))"

definition is_negation :: "string \<Rightarrow> string \<Rightarrow> bool" where
  \<comment> \<open>Each loop returns True at its first hit and changes nothing otherwise.\<close>
  "is_negation content1 content2 =
     (list_ex (negation_hit content1 content2) negations
      \<or> list_ex (opposite_hit content1 content2) opposites)"

fun check_direct_loop :: "Proposition \<Rightarrow> Proposition list \<Rightarrow> Contradiction option" where
  "check_direct_loop prop [] = None"
| "check_direct_loop prop (existing # rest) =
     (if is_negation (lower (p_content prop)) (lower (p_content existing))
      then Some \<lparr>c_type = DIRECT, c_propositions = [existing, prop],
                 c_explanation = ''Direct contradiction: '' @ quote @ p_content existing @ quote
                                   @ '' vs '' @ quote @ p_content prop @ quote,
                 c_severity = 1.0\<rparr>
      else check_direct_loop prop rest)"

definition check_direct_contradiction ::
  "ContradictionEngine \<Rightarrow> Proposition \<Rightarrow> Contradiction option" where
  "check_direct_contradiction eng prop = check_direct_loop prop (known_propositions eng)"

definition greed_patterns :: "string list" where
  "greed_patterns =
     [''maximize profit'', ''extract'', ''exploit'', ''short-term gain'',
      ''at all costs'', ''profit above all'', ''maximum extraction'',
      ''squeeze every penny'', ''milk for profit'']"

definition destabilize_patterns :: "string list" where
  "destabilize_patterns =
     [''destabilize'', ''undermine'', ''break'', ''destroy collective'',
      ''tear down'', ''dismantle'', ''sabotage'', ''weaken the system'']"

definition check_survival_violation :: "Proposition \<Rightarrow> Contradiction option" where
  "check_survival_violation prop =
     (let content_lower = lower (p_content prop) in
      if list_ex (\<lambda>pattern. contains pattern content_lower) greed_patterns
      then Some \<lparr>c_type = SURVIVAL, c_propositions = [prop],
                 c_explanation = ''Violates survival axiom: '' @ quote @ p_content prop @ quote
                                   @ '' optimizes for extraction over collective stability'',
                 c_severity = 0.8\<rparr>
      else if list_ex (\<lambda>pattern. contains pattern content_lower) destabilize_patterns
      then Some \<lparr>c_type = SURVIVAL, c_propositions = [prop],
                 c_explanation = ''Violates survival axiom: '' @ quote @ p_content prop @ quote
                                   @ '' destabilizes collective coherence'',
                 c_severity = 0.9\<rparr>
      else None)"

definition check_truth_violation ::
  "TruthValidator \<Rightarrow> Proposition \<Rightarrow> Contradiction option \<times> TruthValidator" where
  \<comment> \<open>Returns the contradiction and the validator's dictionary after the call.\<close>
  "check_truth_violation facts prop =
     (let validation = validate_statement facts (p_content prop) in
      if vr_result validation = FALSE
      then (Some \<lparr>c_type = LOGICAL, c_propositions = [prop],
                  c_explanation = ''Statement is false: '' @ vr_reasoning validation,
                  c_severity = 0.95\<rparr>, facts)
      else if vr_result validation = CONTRADICTION
      then (Some \<lparr>c_type = LOGICAL, c_propositions = [prop],
                  c_explanation = ''Contradicts established facts: '' @ vr_reasoning validation,
                  c_severity = 1.0\<rparr>, facts)
      else if vr_result validation = TRUE
      then (None, add_validated_fact (p_content prop) validation facts)
      else (None, facts))"

definition add_proposition ::
  "ContradictionEngine \<Rightarrow> Proposition \<Rightarrow> Contradiction option \<times> ContradictionEngine" where
  "add_proposition eng prop =
     (case check_direct_contradiction eng prop of
        Some contradiction \<Rightarrow>
          (Some contradiction,
           eng\<lparr>detected_contradictions := detected_contradictions eng @ [contradiction]\<rparr>)
      | None \<Rightarrow>
         (case check_survival_violation prop of
            Some contradiction \<Rightarrow>
              (Some contradiction,
               eng\<lparr>detected_contradictions := detected_contradictions eng @ [contradiction]\<rparr>)
          | None \<Rightarrow>
             (case check_truth_violation (truth_validator eng) prop of
                (Some contradiction, facts) \<Rightarrow>
                  (Some contradiction,
                   eng\<lparr>truth_validator := facts,
                       detected_contradictions := detected_contradictions eng @ [contradiction]\<rparr>)
              | (None, facts) \<Rightarrow>
                  (None,
                   eng\<lparr>truth_validator := facts,
                       known_propositions := set_add prop (known_propositions eng)\<rparr>))))"

definition float_str :: "real \<Rightarrow> string" where
  \<comment> \<open>\<open>str\<close> of a float, on the four severities the engine builds (each prints as
      its literal); the severity of a contradiction built elsewhere is not printed.\<close>
  "float_str x =
     (if x = 1.0 then ''1.0'' else if x = 0.95 then ''0.95''
      else if x = 0.9 then ''0.9'' else if x = 0.8 then ''0.8'' else [])"

fun refusal_lines :: "nat \<Rightarrow> Proposition list \<Rightarrow> string" where
  \<comment> \<open>The loop \<open>for i, prop in enumerate(contradiction.propositions, 1)\<close>.\<close>
  "refusal_lines i [] = []"
| "refusal_lines i (prop # rest) =
     ''  '' @ str_nat i @ ''. ['' @ p_source prop @ ''] '' @ p_content prop @ newline
     @ refusal_lines (Suc i) rest"

definition generate_refusal :: "Contradiction \<Rightarrow> string" where
  "generate_refusal contradiction =
     ''REFUSAL: '' @ type_value (c_type contradiction) @ newline
     @ ''Reason: '' @ c_explanation contradiction @ newline
     @ ''Severity: '' @ float_str (c_severity contradiction) @ newline
     @ newline @ ''Counterexample:'' @ newline
     @ refusal_lines 1 (c_propositions contradiction)
     @ newline @ ''Logic is master. This command violates coherence.''"

definition get_contradiction_count :: "ContradictionEngine \<Rightarrow> nat" where
  "get_contradiction_count eng = length (detected_contradictions eng)"

section \<open>Frankenstein core (frankenstein\_core.py)\<close>

record FrankensteinCore =
  axiom_kernel :: AxiomKernel
  proof_ledger :: ProofLedger
  contradiction_engine :: ContradictionEngine
  override_active :: bool
  contradiction_threshold :: real

definition FrankensteinCore_init :: "digest \<Rightarrow> encoder \<Rightarrow> string \<Rightarrow> FrankensteinCore" where
  \<comment> \<open>\<open>__init__\<close>; \<open>ts0\<close> is the clock when the initialization is logged.\<close>
  "FrankensteinCore_init sha dumps ts0 =
     \<lparr>axiom_kernel = AxiomKernel_init,
      proof_ledger =
        snd (append sha dumps ts0 [''System initialization'']
               [''Load axiom kernel'', ''Initialize proof ledger'',
                ''Initialize contradiction engine'']
               ''Frankenstein Core initialized - Logic is master'' None
               (ProofLedger_init sha)),
      contradiction_engine = ContradictionEngine_init,
      override_active = False,
      contradiction_threshold = 0.7\<rparr>"

definition isalnum :: "char \<Rightarrow> bool" where
  \<comment> \<open>\<open>str.isalnum\<close> on the code points 0..255.\<close>
  "isalnum c = (let n = (of_char c :: nat) in
     (48 \<le> n \<and> n \<le> 57) \<or> (65 \<le> n \<and> n \<le> 90) \<or> (97 \<le> n \<and> n \<le> 122)
     \<or> n = 170 \<or> n = 178 \<or> n = 179 \<or> n = 181 \<or> n = 185 \<or> n = 186
     \<or> (188 \<le> n \<and> n \<le> 190) \<or> (192 \<le> n \<and> n \<le> 214) \<or> (216 \<le> n \<and> n \<le> 246)
     \<or> 248 \<le> n)"

definition sanitize_source :: "string \<Rightarrow> string" where
  \<comment> \<open>\<open>''.join(c for c in source if c.isalnum() or c in '_-')[:50]\<close>\<close>
  "sanitize_source source = take 50 (filter (\<lambda>c. isalnum c \<or> c \<in> set ''_-'') source)"

definition make_proposition :: "string \<Rightarrow> string \<Rightarrow> string \<Rightarrow> Proposition" where
  \<comment> \<open>The proposition \<open>process_command\<close> builds from the command, the sanitized
      source and the time stamp; \<open>confidence\<close> keeps its default.\<close>
  "make_proposition command source timestamp =
     \<lparr>p_id = source @ ''_'' @ timestamp, p_content = command, p_source = source,
      p_timestamp = timestamp, p_confidence = 1.0\<rparr>"

definition process_command ::
  "digest \<Rightarrow> encoder \<Rightarrow> string \<Rightarrow> string \<Rightarrow> string \<Rightarrow> string \<Rightarrow> FrankensteinCore \<Rightarrow>
   (bool \<times> string) \<times> FrankensteinCore" where
  \<comment> \<open>\<open>now\<close> is the clock read by \<open>process_command\<close>, \<open>now'\<close> the clock read by
      the ledger's \<open>append\<close>. Both \<open>isinstance\<close> tests are the types of the arguments.\<close>
  "process_command sha dumps command source0 now now' core =
     (let source = sanitize_source source0;
          timestamp = now;
          prop = make_proposition command source timestamp;
          (axiom_valid, axiom_reason) = validate_against_axioms command
      in if \<not> axiom_valid
         then (let refusal = ''AXIOM VIOLATION: '' @ axiom_reason in
               ((False, refusal),
                core\<lparr>proof_ledger :=
                       snd (append sha dumps now' [command] [''Axiom validation''] ''REFUSED''
                              (Some refusal) (proof_ledger core))\<rparr>))
         else (case add_proposition (contradiction_engine core) prop of
                 (Some contradiction, eng) \<Rightarrow>
                   (let refusal = generate_refusal contradiction in
                    ((False, refusal),
                     core\<lparr>contradiction_engine := eng,
                          override_active :=
                            (if c_severity contradiction \<ge> contradiction_threshold core
                             then True else override_active core),
                          proof_ledger :=
                            snd (append sha dumps now' [command]
                                   [''Contradiction detection'',
                                    ''Type: '' @ type_value (c_type contradiction)]
                                   ''REFUSED'' (Some refusal) (proof_ledger core))\<rparr>))
               | (None, eng) \<Rightarrow>
                   ((True, ''Command accepted: '' @ command),
                    core\<lparr>contradiction_engine := eng,
                         proof_ledger :=
                           snd (append sha dumps now' [command]
                                  [''Axiom validation: PASS'', ''Contradiction check: PASS'']
                                  ''ACCEPTED'' None (proof_ledger core))\<rparr>)))"

definition is_override_active :: "FrankensteinCore \<Rightarrow> bool" where
  "is_override_active core = override_active core"

record Status =
  axiom_kernel_immutable :: bool
  proof_ledger_valid :: bool
  proof_ledger_message :: string
  total_decisions :: nat
  contradictions_detected :: nat
  status_override_active :: bool
  status :: string

definition get_status :: "digest \<Rightarrow> encoder \<Rightarrow> FrankensteinCore \<Rightarrow> Status" where
  "get_status sha dumps core =
     (let (ledger_valid, ledger_msg) = verify_integrity sha dumps (proof_ledger core) in
      \<lparr>axiom_kernel_immutable = is_immutable (axiom_kernel core),
       proof_ledger_valid = ledger_valid,
       proof_ledger_message = ledger_msg,
       total_decisions = get_record_count (proof_ledger core),
       contradictions_detected = get_contradiction_count (contradiction_engine core),
       status_override_active = override_active core,
       status = ''Logic is master''\<rparr>)"

definition get_proof_history :: "FrankensteinCore \<Rightarrow> ProofRecord list" where
  \<comment> \<open>\<open>to_dict\<close> keeps every field of a record under its own name.\<close>
  "get_proof_history core = get_records (proof_ledger core)"

text \<open>
  One call of \<open>process_command\<close>: the command, the source and the two clock readings.
\<close>

type_synonym command_call = "string \<times> string \<times> string \<times> string"

definition process_call ::
  "digest \<Rightarrow> encoder \<Rightarrow> FrankensteinCore \<Rightarrow> command_call \<Rightarrow> FrankensteinCore" where
  "process_call sha dumps core call =
     (case call of (command, source, now, now') \<Rightarrow>
        snd (process_command sha dumps command source now now' core))"

definition process_all ::
  "digest \<Rightarrow> encoder \<Rightarrow> command_call list \<Rightarrow> FrankensteinCore \<Rightarrow> FrankensteinCore" where
  "process_all sha dumps calls core = foldl (process_call sha dumps) core calls"

definition only_true_entries :: "TruthValidator \<Rightarrow> bool" where
  \<comment> \<open>Every entry of the knowledge base carries the judgment TRUE.\<close>
  "only_true_entries facts = (\<forall>key entry. facts key = Some entry \<longrightarrow> vr_result entry = TRUE)"

section \<open>A concrete digest and encoder\<close>

text \<open>
  The theorems below hold for every digest and every encoder. A closed instance needs
  two concrete ones. \<open>json_dumps\<close> writes the dictionary as
  \<open>json.dumps(..., sort_keys=True)\<close> does for strings of code points 0..255: keys in
  alphabetical order, \<open>", "\<close> and \<open>": "\<close> as separators, and the escapes of
  \<open>ensure_ascii\<close>. \<open>plain_digest\<close> stands for a digest without collisions: it returns
  its input.
\<close>

definition hex_digit :: "nat \<Rightarrow> char" where
  "hex_digit d = (if d < 10 then char_of (48 + d) else char_of (87 + d))"

definition backslash :: string where
  "backslash = [CHR 0x5C]"

definition dquote :: string where
  "dquote = [CHR 0x22]"

definition json_escape :: "char \<Rightarrow> string" where
  "json_escape c = (let n = (of_char c :: nat) in
     if n = 34 then backslash @ dquote
     else if n = 92 then backslash @ backslash
     else if n = 10 then backslash @ ''n''
     else if n = 13 then backslash @ ''r''
     else if n = 9 then backslash @ ''t''
     else if n = 12 then backslash @ ''f''
     else if n = 8 then backslash @ ''b''
     else if n < 32 \<or> 126 < n then backslash @ ''u00'' @ [hex_digit (n div 16), hex_digit (n mod 16)]
     else [c])"

definition json_string :: "string \<Rightarrow> string" where
  "json_string s = dquote @ concat (map json_escape s) @ dquote"

fun json_items :: "string list \<Rightarrow> string" where
  "json_items [] = []"
| "json_items [x] = json_string x"
| "json_items (x # y # rest) = json_string x @ '', '' @ json_items (y # rest)"

definition json_list :: "string list \<Rightarrow> string" where
  "json_list xs = ''['' @ json_items xs @ '']''"

definition json_optional :: "string option \<Rightarrow> string" where
  "json_optional x = (case x of None \<Rightarrow> ''null'' | Some s \<Rightarrow> json_string s)"

definition json_dumps :: encoder where
  "json_dumps timestamp premises inference_steps conclusion counterexample prev_hash =
     ''{'' @ json_string ''conclusion'' @ '': '' @ json_string conclusion
     @ '', '' @ json_string ''counterexample'' @ '': '' @ json_optional counterexample
     @ '', '' @ json_string ''inference_steps'' @ '': '' @ json_list inference_steps
     @ '', '' @ json_string ''premises'' @ '': '' @ json_list premises
     @ '', '' @ json_string ''prev_hash'' @ '': '' @ json_optional prev_hash
     @ '', '' @ json_string ''timestamp'' @ '': '' @ json_string timestamp @ ''}''"

definition plain_digest :: digest where
  "plain_digest data = data"

section \<open>The hash chain of the ledger\<close>

lemma verify_loop_snoc:
  "verify_loop sha dumps i prev (rs @ [r]) =
     (if fst (verify_loop sha dumps i prev rs)
      then verify_loop sha dumps (i + length rs) (if rs = [] then prev else pr_hash (last rs)) [r]
      else verify_loop sha dumps i prev rs)"
  by (induction rs arbitrary: i prev) auto

lemma append_records:
  "records (snd (append sha dumps ts p s c x L)) =
     records L @ [fst (append sha dumps ts p s c x L)]"
  by (simp add: append_def Let_def)

lemma append_genesis:
  "genesis_hash (snd (append sha dumps ts p s c x L)) = genesis_hash L"
  by (simp add: append_def Let_def)

lemma append_record_link:
  "pr_prev_hash (fst (append sha dumps ts p s c x L)) =
     Some (if records L = [] then genesis_hash L else pr_hash (last (records L)))"
  by (simp add: append_def Let_def)

lemma append_record_hash:
  "pr_hash (fst (append sha dumps ts p s c x L)) =
     record_digest sha dumps (fst (append sha dumps ts p s c x L))"
  by (simp add: append_def Let_def record_digest_def)

lemma butlast_link_snoc:
  "butlast (g # map f (rs @ [r])) = butlast (g # map f rs) @ [if rs = [] then g else f (last rs)]"
  by (induction rs arbitrary: g) auto

lemma chain_ok_append_call:
  assumes "chain_ok sha dumps L"
  shows "chain_ok sha dumps (append_call sha dumps L c)"
proof -
  obtain ts p s cc x where c: "c = (ts, p, s, cc, x)" by (cases c) auto
  define r where "r = fst (append sha dumps ts p s cc x L)"
  define L' where "L' = snd (append sha dumps ts p s cc x L)"
  have L': "append_call sha dumps L c = L'"
    by (simp add: c append_call_def L'_def)
  have recs: "records L' = records L @ [r]"
    by (simp add: L'_def r_def append_records)
  have gen: "genesis_hash L' = genesis_hash L"
    by (simp add: L'_def append_genesis)
  have link: "pr_prev_hash r =
      Some (if records L = [] then genesis_hash L else pr_hash (last (records L)))"
    unfolding r_def by (rule append_record_link)
  have hash: "pr_hash r = record_digest sha dumps r"
    unfolding r_def by (rule append_record_hash)
  from assms have v: "verify_loop sha dumps 0 (genesis_hash L) (records L) =
      (True, ''Ledger integrity verified'')"
    and m: "map pr_prev_hash (records L) =
      map Some (butlast (genesis_hash L # map pr_hash (records L)))"
    by (simp_all add: chain_ok_def)
  have "verify_loop sha dumps 0 (genesis_hash L') (records L') =
      (True, ''Ledger integrity verified'')"
    using v link hash by (simp add: recs gen verify_loop_snoc)
  moreover have "map pr_prev_hash (records L') =
      map Some (butlast (genesis_hash L' # map pr_hash (records L')))"
  proof -
    let ?t = "if records L = [] then genesis_hash L else pr_hash (last (records L))"
    let ?b = "butlast (genesis_hash L # map pr_hash (records L))"
    have "map pr_prev_hash (records L') = map pr_prev_hash (records L) @ [pr_prev_hash r]"
      by (simp add: recs)
    also have "\<dots> = map Some ?b @ [Some ?t]"
      by (simp only: m link)
    also have "\<dots> = map Some (?b @ [?t])"
      by (simp only: map_append list.map)
    also have "\<dots> = map Some (butlast (genesis_hash L # map pr_hash (records L @ [r])))"
      by (simp only: butlast_link_snoc)
    finally show ?thesis
      by (simp only: recs gen)
  qed
  ultimately show ?thesis
    unfolding L' chain_ok_def by simp
qed

lemma chain_ok_init: "chain_ok sha dumps (ProofLedger_init sha)"
  by (simp add: chain_ok_def ProofLedger_init_def)

lemma chain_ok_append_all:
  "chain_ok sha dumps L \<Longrightarrow> chain_ok sha dumps (append_all sha dumps calls L)"
  unfolding append_all_def
  by (induction calls arbitrary: L) (simp_all add: chain_ok_append_call)

lemma append_call_genesis:
  "genesis_hash (append_call sha dumps L c) = genesis_hash L"
  by (cases c) (simp add: append_call_def append_genesis)

lemma append_all_genesis:
  "genesis_hash (append_all sha dumps calls L) = genesis_hash L"
  unfolding append_all_def
  by (induction calls arbitrary: L) (simp_all add: append_call_genesis)

lemma append_call_length:
  "length (records (append_call sha dumps L c)) = Suc (length (records L))"
  by (cases c) (simp add: append_call_def append_records)

lemma append_all_length:
  "length (records (append_all sha dumps calls L)) = length (records L) + length calls"
  unfolding append_all_def
  by (induction calls arbitrary: L) (simp_all add: append_call_length)

text \<open>
  Claim C1. After any sequence of \<open>append\<close> calls on a fresh ledger (any time stamps,
  premises, inference steps, conclusions and optional counterexamples),
  \<open>verify_integrity\<close> reports the ledger valid: with the message of the empty ledger
  when nothing was appended, else with the message that the integrity is verified. The
  \<open>prev_hash\<close> fields, in order, are the genesis digest followed by the \<open>hash\<close>
  fields of all records but the last: each record points at its immediate predecessor,
  the first at the genesis digest. This holds for every digest and every encoder.
\<close>

theorem append_then_verify_integrity:
  fixes sha :: digest and dumps :: encoder and calls :: "append_call list"
  defines "L \<equiv> append_all sha dumps calls (ProofLedger_init sha)"
  shows "verify_integrity sha dumps L =
           (True, if calls = [] then ''Empty ledger is valid'' else ''Ledger integrity verified'')
         \<and> map pr_prev_hash (records L) =
             map Some (butlast (compute_hash sha ''GENESIS_FRANKENSTEIN_DIVINE_LOGIC''
                                 # map pr_hash (records L)))"
proof -
  have ok: "chain_ok sha dumps L"
    unfolding L_def by (rule chain_ok_append_all) (rule chain_ok_init)
  have g: "genesis_hash L = compute_hash sha ''GENESIS_FRANKENSTEIN_DIVINE_LOGIC''"
    unfolding L_def by (simp add: append_all_genesis ProofLedger_init_def)
  have len: "length (records L) = length calls"
    unfolding L_def by (simp add: append_all_length ProofLedger_init_def)
  have e: "(records L = []) = (calls = [])"
    using len by (metis length_0_conv)
  show ?thesis
    using ok g e by (simp add: chain_ok_def verify_integrity_def)
qed

section \<open>Facts about the string operations\<close>

lemma contains_sublist: "contains sub s = sublist sub s"
  by (induction s) (simp_all add: sublist_Cons_right)

lemma contains_length: "contains sub s \<Longrightarrow> length sub \<le> length s"
  by (simp add: contains_sublist sublist_length_le)

lemma strip_Nil: "strip [] = []"
  by (simp add: strip_def)

lemma strip_replicate_space: "strip (replicate n (CHR '' '')) = []"
proof -
  have "isspace (CHR '' '')" by (simp add: isspace_def)
  then have "dropWhile isspace (replicate n (CHR '' '')) = []"
    by (induction n) simp_all
  then show ?thesis by (simp add: strip_def)
qed

lemma split_once_first:
  assumes "contains sep s" and "sep \<noteq> []"
  shows "\<exists>before after. split_once sep s = [before, after] \<and> s = before @ sep @ after
           \<and> \<not> contains sep (before @ butlast sep)"
  using assms
proof (induction s)
  case Nil
  then show ?case by simp
next
  case (Cons c cs)
  show ?case
  proof (cases "prefix sep (c # cs)")
    case True
    then obtain after where a: "c # cs = sep @ after" by (auto simp: prefix_def)
    have "\<not> contains sep (butlast sep)"
    proof
      assume "contains sep (butlast sep)"
      then have "length sep \<le> length (butlast sep)" by (rule contains_length)
      then have "length sep \<le> length sep - 1" by (simp only: length_butlast)
      moreover have "0 < length sep" using Cons.prems(2) by simp
      ultimately show False by arith
    qed
    then have nc: "\<not> contains sep ([] @ butlast sep)" by simp
    have "split_once sep (c # cs) = [[], drop (length sep) (c # cs)]"
      using True by simp
    moreover have "drop (length sep) (c # cs) = after" by (simp add: a)
    moreover have "c # cs = [] @ sep @ after" using a by simp
    ultimately show ?thesis using nc by blast
  next
    case False
    with Cons.prems have "contains sep cs" by simp
    from Cons.IH[OF this Cons.prems(2)] obtain before after where
      sp: "split_once sep cs = [before, after]" and cs: "cs = before @ sep @ after"
      and nc: "\<not> contains sep (before @ butlast sep)" by blast
    have "prefix (c # before @ butlast sep) (c # cs)"
      unfolding cs using Cons.prems(2)
      by (metis append_butlast_last_id append.assoc prefix_def Cons_prefix_Cons same_prefix_prefix)
    then have np: "\<not> prefix sep (c # before @ butlast sep)"
      using False prefix_order.trans by blast
    have "split_once sep (c # cs) = [c # before, after]" using False sp by simp
    moreover have "c # cs = (c # before) @ sep @ after" using cs by simp
    moreover have "\<not> contains sep ((c # before) @ butlast sep)" using np nc by simp
    ultimately show ?thesis by blast
  qed
qed

section \<open>The axiom gate\<close>

text \<open>
  Claim C6, as amended. For every string \<open>s\<close>, \<open>validate_against_axioms\<close> fails with
  the empty-proposition reason exactly when the stripped \<open>s\<close> is empty; it fails with the
  too-long reason exactly when the stripped \<open>s\<close> is not empty and \<open>s\<close> has more than
  10000 characters; and it succeeds exactly when the stripped \<open>s\<close> is not empty and \<open>s\<close>
  has at most 10000 characters (so a non-blank string of exactly 10000 characters
  passes). The function takes the string only: it reads and writes no state.
\<close>

theorem validate_against_axioms_reasons:
  "(validate_against_axioms s = (False, ''Empty proposition violates identity'')) = (strip s = [])
   \<and> (validate_against_axioms s = (False, ''Proposition too long''))
       = (strip s \<noteq> [] \<and> length s > 10000)
   \<and> (validate_against_axioms s = (True, ''Passes axiom validation''))
       = (strip s \<noteq> [] \<and> length s \<le> 10000)"
proof (cases "strip s = []")
  case True
  then show ?thesis by (simp add: validate_against_axioms_def)
next
  case False
  then have "s \<noteq> []" using strip_Nil by auto
  with False show ?thesis by (auto simp add: validate_against_axioms_def)
qed

text \<open>
  The claim as first stated (too long exactly when the length exceeds 10000) fails on
  10001 blanks: the string is longer than 10000 characters and is refused as empty, not
  as too long, because the emptiness test comes first.
\<close>

theorem too_long_blank_counterexample:
  "length (replicate 10001 (CHR '' '')) > 10000
   \<and> validate_against_axioms (replicate 10001 (CHR '' ''))
       = (False, ''Empty proposition violates identity'')
   \<and> validate_against_axioms (replicate 10001 (CHR '' '')) \<noteq> (False, ''Proposition too long'')"
  by (simp add: validate_against_axioms_def strip_replicate_space)

section \<open>The truth validator\<close>

text \<open>
  Claim C8, as amended. Every (lower-cased) statement that contains the word \<open>is\<close>
  between two blanks, the substring \<open>" is "\<close>, is parsed as a classification. The
  statement is cut at the first occurrence of \<open>" is "\<close>; the subject is the stripped
  text before it and the predicate the stripped text after it, each with every
  \<open>"a "\<close> and then every \<open>"an "\<close> removed; the relation is \<open>"is"\<close>.
\<close>

theorem parse_statement_is:
  assumes "contains '' is '' s"
  shows "\<exists>before after. s = before @ '' is '' @ after \<and> \<not> contains '' is '' (before @ '' is'')
           \<and> parse_statement s =
                Some (Classification (replace ''an '' [] (replace ''a '' [] (strip before)))
                                     (replace ''an '' [] (replace ''a '' [] (strip after)))
                                     ''is'')"
proof -
  from split_once_first[OF assms] obtain before after where
    sp: "split_once '' is '' s = [before, after]" and s: "s = before @ '' is '' @ after"
    and nc: "\<not> contains '' is '' (before @ butlast '' is '')" by auto
  have "parse_statement s =
          Some (Classification (replace ''an '' [] (replace ''a '' [] (strip before)))
                               (replace ''an '' [] (replace ''a '' [] (strip after))) ''is'')"
    using assms sp by (simp add: parse_statement_def)
  with s nc show ?thesis by auto
qed

theorem parse_statement_is_witness:
  "contains '' is '' ''the sky is blue''
   \<and> parse_statement ''the sky is blue'' = Some (Classification ''the sky'' ''blue'' ''is'')"
proof -
  have h: "contains '' is '' ''the sky is blue''" by code_simp
  from parse_statement_is[OF h] obtain before after where
    s: "''the sky is blue'' = before @ '' is '' @ after"
    and nc: "\<not> contains '' is '' (before @ '' is'')"
    and p: "parse_statement ''the sky is blue'' =
              Some (Classification (replace ''an '' [] (replace ''a '' [] (strip before)))
                                   (replace ''an '' [] (replace ''a '' [] (strip after))) ''is'')"
    by blast
  have "parse_statement ''the sky is blue'' = Some (Classification ''the sky'' ''blue'' ''is'')"
    by code_simp
  with h p show ?thesis by simp
qed

text \<open>
  The claim as first stated also covers the copula \<open>are\<close>: the statement
  \<open>cats are animals\<close> contains it and is parsed as a general statement, not as a
  classification.
\<close>

theorem parse_statement_are_counterexample:
  "contains ''are'' ''cats are animals''
   \<and> parse_statement ''cats are animals'' = Some (General ''cats are animals'')"
  by code_simp

text \<open>
  Claim C10. On a fresh validator, take any statement whose lower-cased, stripped form
  with the articles removed (the text \<open>_normalize_to_key\<close> tests) contains \<open>cat\<close>,
  \<open>animal\<close> and \<open>is\<close>. Then \<open>validate_statement\<close> returns the stored entry
  \<open>cat_is_animal\<close>: result TRUE, confidence 1.0, with its reasoning and evidence.
  Nothing else of the statement is looked at; the negated statement
  \<open>a cat is not an animal\<close> is the witness.
\<close>

theorem cat_animal_is_lookup:
  assumes "contains ''cat'' (remove_articles (strip (lower s)))"
    and "contains ''animal'' (remove_articles (strip (lower s)))"
    and "contains ''is'' (remove_articles (strip (lower s)))"
  shows "validate_statement load_core_facts s =
           \<lparr>vr_result = TRUE, vr_confidence = 1.0,
            vr_reasoning = ''Cats are mammals, mammals are animals'',
            vr_evidence = [''biological taxonomy'', ''scientific classification'']\<rparr>"
proof -
  have key: "normalize_to_key (strip (lower s)) = ''cat_is_animal''"
    using assms by (simp add: normalize_to_key_def)
  show ?thesis
    by (simp add: validate_statement_def key load_core_facts_def)
qed

theorem cat_animal_is_lookup_witness:
  "contains ''cat'' (remove_articles (strip (lower ''a cat is not an animal'')))
   \<and> contains ''animal'' (remove_articles (strip (lower ''a cat is not an animal'')))
   \<and> contains ''is'' (remove_articles (strip (lower ''a cat is not an animal'')))
   \<and> vr_result (validate_statement load_core_facts ''a cat is not an animal'') = TRUE
   \<and> vr_confidence (validate_statement load_core_facts ''a cat is not an animal'') = 1.0"
proof -
  have h1: "contains ''cat'' (remove_articles (strip (lower ''a cat is not an animal'')))"
    by code_simp
  have h2: "contains ''animal'' (remove_articles (strip (lower ''a cat is not an animal'')))"
    by code_simp
  have h3: "contains ''is'' (remove_articles (strip (lower ''a cat is not an animal'')))"
    by code_simp
  show ?thesis
    using h1 h2 h3 cat_animal_is_lookup[OF h1 h2 h3] by simp
qed

section \<open>The contradiction engine and the decision pipeline\<close>

subsection \<open>Severities\<close>

lemma check_direct_loop_severity:
  "check_direct_loop prop known = Some c \<Longrightarrow> c_severity c = 1.0"
  by (induction known) (auto split: if_splits)

text \<open>
  Whether a direct contradiction is found does not depend on the order in which the
  known propositions are visited, and neither does its severity (always 1.0).
\<close>

lemma check_direct_loop_None_iff:
  "check_direct_loop prop known = None \<longleftrightarrow>
     (\<forall>existing \<in> set known.
        \<not> is_negation (lower (p_content prop)) (lower (p_content existing)))"
  by (induction known) auto

lemma check_direct_loop_order:
  "set known = set known' \<Longrightarrow>
     (check_direct_loop prop known = None) = (check_direct_loop prop known' = None)"
  by (simp add: check_direct_loop_None_iff)

lemma check_survival_violation_severity:
  "check_survival_violation prop = Some c \<Longrightarrow> c_severity c = 0.8 \<or> c_severity c = 0.9"
  by (auto simp: check_survival_violation_def Let_def split: if_splits)

lemma check_truth_violation_severity:
  "check_truth_violation facts prop = (Some c, facts') \<Longrightarrow>
     c_severity c = 0.95 \<or> c_severity c = 1.0"
  by (auto simp: check_truth_violation_def Let_def split: if_splits)

lemma add_proposition_severity:
  assumes "add_proposition eng prop = (Some c, eng')"
  shows "c_severity c = 1.0 \<or> c_severity c = 0.95 \<or> c_severity c = 0.9 \<or> c_severity c = 0.8"
proof (cases "check_direct_contradiction eng prop")
  case (Some d)
  with assms have "c = d" by (simp add: add_proposition_def)
  with Some show ?thesis
    by (auto simp: check_direct_contradiction_def dest: check_direct_loop_severity)
next
  case None
  note direct = None
  show ?thesis
  proof (cases "check_survival_violation prop")
    case (Some d)
    with assms direct have "c = d" by (simp add: add_proposition_def)
    with Some show ?thesis by (auto dest: check_survival_violation_severity)
  next
    case None
    obtain r facts' where t: "check_truth_violation (truth_validator eng) prop = (r, facts')"
      by (cases "check_truth_violation (truth_validator eng) prop")
    with assms direct None have "r = Some c"
      by (cases r) (simp_all add: add_proposition_def)
    with t show ?thesis by (auto dest: check_truth_violation_severity)
  qed
qed

subsection \<open>What a call of the pipeline changes\<close>

lemma process_command_threshold:
  "contradiction_threshold (snd (process_command sha dumps command source now now' core)) =
     contradiction_threshold core"
  by (simp add: process_command_def Let_def split: prod.splits option.splits)

lemma process_command_override:
  "override_active core \<Longrightarrow>
     override_active (snd (process_command sha dumps command source now now' core))"
  by (simp add: process_command_def Let_def split: prod.splits option.splits)

lemma process_call_threshold:
  "contradiction_threshold (process_call sha dumps core call) = contradiction_threshold core"
  by (cases call) (simp add: process_call_def process_command_threshold)

lemma process_call_override:
  "override_active core \<Longrightarrow> override_active (process_call sha dumps core call)"
  by (cases call) (simp add: process_call_def process_command_override)

lemma process_all_threshold:
  "contradiction_threshold (process_all sha dumps calls core) = contradiction_threshold core"
  unfolding process_all_def
  by (induction calls arbitrary: core) (simp_all add: process_call_threshold)

lemma process_all_override:
  "override_active core \<Longrightarrow> override_active (process_all sha dumps calls core)"
  unfolding process_all_def
  by (induction calls arbitrary: core) (simp_all add: process_call_override)

lemma init_threshold: "contradiction_threshold (FrankensteinCore_init sha dumps ts0) = 0.7"
  by (simp add: FrankensteinCore_init_def)

lemma process_command_contradiction:
  assumes "fst (validate_against_axioms command)"
    and "add_proposition (contradiction_engine core)
           (make_proposition command (sanitize_source source) now) = (Some c, eng)"
  shows "process_command sha dumps command source now now' core =
     ((False, generate_refusal c),
      core\<lparr>contradiction_engine := eng,
           override_active := (if c_severity c \<ge> contradiction_threshold core
                               then True else override_active core),
           proof_ledger := snd (append sha dumps now' [command]
                                  [''Contradiction detection'', ''Type: '' @ type_value (c_type c)]
                                  ''REFUSED'' (Some (generate_refusal c)) (proof_ledger core))\<rparr>)"
  using assms
  by (cases "validate_against_axioms command") (simp add: process_command_def Let_def)

lemma process_command_accepted:
  assumes "fst (validate_against_axioms command)"
    and "add_proposition (contradiction_engine core)
           (make_proposition command (sanitize_source source) now) = (None, eng)"
  shows "process_command sha dumps command source now now' core =
     ((True, ''Command accepted: '' @ command),
      core\<lparr>contradiction_engine := eng,
           proof_ledger := snd (append sha dumps now' [command]
                                  [''Axiom validation: PASS'', ''Contradiction check: PASS'']
                                  ''ACCEPTED'' None (proof_ledger core))\<rparr>)"
  using assms
  by (cases "validate_against_axioms command") (simp add: process_command_def Let_def)

lemma process_command_axiom_refused:
  assumes "\<not> fst (validate_against_axioms command)"
  shows "process_command sha dumps command source now now' core =
     ((False, ''AXIOM VIOLATION: '' @ snd (validate_against_axioms command)),
      core\<lparr>proof_ledger :=
             snd (append sha dumps now' [command] [''Axiom validation''] ''REFUSED''
                    (Some (''AXIOM VIOLATION: '' @ snd (validate_against_axioms command)))
                    (proof_ledger core))\<rparr>)"
  using assms
  by (cases "validate_against_axioms command") (simp add: process_command_def Let_def)

lemma process_command_engine:
  "contradiction_engine (snd (process_command sha dumps command source now now' core)) =
     (if fst (validate_against_axioms command)
      then snd (add_proposition (contradiction_engine core)
                  (make_proposition command (sanitize_source source) now))
      else contradiction_engine core)"
proof (cases "fst (validate_against_axioms command)")
  case False
  then show ?thesis by (simp add: process_command_axiom_refused)
next
  case True
  obtain r eng where a: "add_proposition (contradiction_engine core)
      (make_proposition command (sanitize_source source) now) = (r, eng)"
    by (cases "add_proposition (contradiction_engine core)
      (make_proposition command (sanitize_source source) now)")
  show ?thesis
  proof (cases r)
    case None
    with True a show ?thesis by (simp add: process_command_accepted)
  next
    case (Some c)
    with True a show ?thesis by (simp add: process_command_contradiction)
  qed
qed

lemma check_truth_violation_facts:
  "snd (check_truth_violation facts prop) =
     (if vr_result (validate_statement facts (p_content prop)) = TRUE
      then add_validated_fact (p_content prop) (validate_statement facts (p_content prop)) facts
      else facts)"
  by (simp add: check_truth_violation_def Let_def)

lemma add_proposition_facts:
  "truth_validator (snd (add_proposition eng prop)) =
     (if check_direct_contradiction eng prop = None \<and> check_survival_violation prop = None
      then snd (check_truth_violation (truth_validator eng) prop)
      else truth_validator eng)"
  by (auto simp: add_proposition_def split: option.splits prod.splits)

lemma add_validated_fact_not_true:
  "vr_result validation \<noteq> TRUE \<Longrightarrow> add_validated_fact statement validation facts = facts"
  by (simp add: add_validated_fact_def)

lemma add_validated_fact_only_true:
  "only_true_entries facts \<Longrightarrow> only_true_entries (add_validated_fact statement validation facts)"
  by (simp add: add_validated_fact_def only_true_entries_def)

lemma add_proposition_only_true:
  "only_true_entries (truth_validator eng) \<Longrightarrow>
     only_true_entries (truth_validator (snd (add_proposition eng prop)))"
  by (simp add: add_proposition_facts check_truth_violation_facts add_validated_fact_only_true)

lemma process_call_only_true:
  "only_true_entries (truth_validator (contradiction_engine core)) \<Longrightarrow>
     only_true_entries (truth_validator (contradiction_engine (process_call sha dumps core call)))"
  by (cases call) (simp add: process_call_def process_command_engine add_proposition_only_true)

lemma process_all_only_true:
  "only_true_entries (truth_validator (contradiction_engine core)) \<Longrightarrow>
     only_true_entries (truth_validator (contradiction_engine (process_all sha dumps calls core)))"
  unfolding process_all_def
  by (induction calls arbitrary: core) (simp_all add: process_call_only_true)

lemma load_core_facts_only_true: "only_true_entries load_core_facts"
  by (simp add: only_true_entries_def load_core_facts_def)

lemma init_engine:
  "contradiction_engine (FrankensteinCore_init sha dumps ts0) = ContradictionEngine_init"
  by (simp add: FrankensteinCore_init_def)

text \<open>
  Claim C9. Whatever the engine's state and the proposition, a contradiction returned by
  \<open>add_proposition\<close> has severity 1.0, 0.95, 0.9 or 0.8, so at least 0.8. Hence, in
  every state the pipeline reaches from its initialization, a command that passes the
  axiom gate and is refused (a refusal that comes from the contradiction engine) leaves
  \<open>override_active\<close> true: every such severity clears the threshold 0.7.
\<close>

theorem contradiction_severity_sets_override:
  fixes sha :: digest and dumps :: encoder and calls :: "command_call list" and boot :: string
  defines "core \<equiv> process_all sha dumps calls (FrankensteinCore_init sha dumps boot)"
  shows "(fst (add_proposition eng p) = Some c \<longrightarrow>
            c_severity c \<in> {1.0, 0.95, 0.9, 0.8} \<and> c_severity c \<ge> 0.8)
         \<and> (fst (validate_against_axioms command)
              \<and> \<not> fst (fst (process_command sha dumps command source now now' core)) \<longrightarrow>
            override_active (snd (process_command sha dumps command source now now' core)))"
proof -
  have sev: "c_severity c \<in> {1.0, 0.95, 0.9, 0.8} \<and> c_severity c \<ge> 0.8"
    if "fst (add_proposition eng p) = Some c"
  proof -
    from that have "add_proposition eng p = (Some c, snd (add_proposition eng p))"
      by (metis prod.collapse)
    from add_proposition_severity[OF this] show ?thesis by auto
  qed
  let ?p = "make_proposition command (sanitize_source source) now"
  have ovr: "override_active (snd (process_command sha dumps command source now now' core))"
    if h: "fst (validate_against_axioms command)
      \<and> \<not> fst (fst (process_command sha dumps command source now now' core))"
  proof -
    obtain r eng' where a: "add_proposition (contradiction_engine core) ?p = (r, eng')"
      by (cases "add_proposition (contradiction_engine core) ?p")
    have thr: "contradiction_threshold core = 0.7"
      unfolding core_def by (simp add: process_all_threshold init_threshold)
    from h have v: "fst (validate_against_axioms command)"
      and refused: "\<not> fst (fst (process_command sha dumps command source now now' core))"
      by simp_all
    show ?thesis
    proof (cases r)
      case None
      with a have "add_proposition (contradiction_engine core) ?p = (None, eng')" by simp
      from process_command_accepted[OF v this]
      have "fst (fst (process_command sha dumps command source now now' core))" by simp
      with refused show ?thesis by simp
    next
      case (Some c')
      with a have a': "add_proposition (contradiction_engine core) ?p = (Some c', eng')"
        by simp
      then have "c_severity c' = 1.0 \<or> c_severity c' = 0.95 \<or> c_severity c' = 0.9
          \<or> c_severity c' = 0.8"
        by (rule add_proposition_severity)
      then have "c_severity c' \<ge> contradiction_threshold core" using thr by auto
      then show ?thesis by (simp add: process_command_contradiction[OF v a'])
    qed
  qed
  from sev ovr show ?thesis by blast
qed

theorem contradiction_severity_sets_override_witness:
  "fst (add_proposition ContradictionEngine_init
          (make_proposition ''maximize profit at all costs'' ''user'' ''2024-01-01T00:00:01''))
     = Some \<lparr>c_type = SURVIVAL,
              c_propositions = [make_proposition ''maximize profit at all costs'' ''user''
                                  ''2024-01-01T00:00:01''],
              c_explanation = ''Violates survival axiom: '' @ quote
                 @ ''maximize profit at all costs'' @ quote
                 @ '' optimizes for extraction over collective stability'',
              c_severity = 0.8\<rparr>
   \<and> fst (validate_against_axioms ''maximize profit at all costs'')
   \<and> \<not> fst (fst (process_command plain_digest json_dumps ''maximize profit at all costs''
              ''user'' ''2024-01-01T00:00:01'' ''2024-01-01T00:00:02''
              (process_all plain_digest json_dumps []
                 (FrankensteinCore_init plain_digest json_dumps ''2024-01-01T00:00:00''))))
   \<and> override_active (snd (process_command plain_digest json_dumps
              ''maximize profit at all costs''
              ''user'' ''2024-01-01T00:00:01'' ''2024-01-01T00:00:02''
              (process_all plain_digest json_dumps []
                 (FrankensteinCore_init plain_digest json_dumps ''2024-01-01T00:00:00''))))"
proof -
  let ?c = "\<lparr>c_type = SURVIVAL,
              c_propositions = [make_proposition ''maximize profit at all costs'' ''user''
                                  ''2024-01-01T00:00:01''],
              c_explanation = ''Violates survival axiom: '' @ quote
                 @ ''maximize profit at all costs'' @ quote
                 @ '' optimizes for extraction over collective stability'',
              c_severity = 0.8\<rparr>"
  have h1: "fst (add_proposition ContradictionEngine_init
          (make_proposition ''maximize profit at all costs'' ''user'' ''2024-01-01T00:00:01''))
     = Some ?c"
    by code_simp
  have h2: "fst (validate_against_axioms ''maximize profit at all costs'')"
    by code_simp
  have h3: "\<not> fst (fst (process_command plain_digest json_dumps ''maximize profit at all costs''
              ''user'' ''2024-01-01T00:00:01'' ''2024-01-01T00:00:02''
              (process_all plain_digest json_dumps []
                 (FrankensteinCore_init plain_digest json_dumps ''2024-01-01T00:00:00''))))"
    by code_simp
  from h1 h2 h3
    contradiction_severity_sets_override[where eng = ContradictionEngine_init
      and p = "make_proposition ''maximize profit at all costs'' ''user'' ''2024-01-01T00:00:01''"
      and c = "?c" and command = "''maximize profit at all costs''" and sha = plain_digest
      and dumps = json_dumps and source = "''user''" and now = "''2024-01-01T00:00:01''"
      and now' = "''2024-01-01T00:00:02''" and calls = "[]" and boot = "''2024-01-01T00:00:00''"]
  show ?thesis by blast
qed

text \<open>
  Claim C3. Let the pipeline have processed any calls since its initialization, and let
  the next command pass the axiom gate and produce a contradiction of severity at least
  0.7. Then \<open>is_override_active\<close> is true after that call followed by any further calls
  whatever, accepted or refused. And in any state at all, a call of \<open>process_command\<close>
  that starts with \<open>override_active\<close> true ends with it true: the flag is never set
  back (the other operations, \<open>is_override_active\<close>, \<open>get_status\<close> and
  \<open>get_proof_history\<close>, return no state).
\<close>

theorem override_is_sticky:
  fixes sha :: digest and dumps :: encoder and pre :: "command_call list" and boot :: string
  defines "core \<equiv> process_all sha dumps pre (FrankensteinCore_init sha dumps boot)"
  assumes valid: "fst (validate_against_axioms command)"
    and contra: "fst (add_proposition (contradiction_engine core)
                   (make_proposition command (sanitize_source source) now)) = Some c"
    and severe: "c_severity c \<ge> 0.7"
  shows "is_override_active
           (process_all sha dumps (pre @ (command, source, now, now') # post)
              (FrankensteinCore_init sha dumps boot))
         \<and> (override_active any_core \<longrightarrow>
              override_active (snd (process_command sha dumps later_command later_source later_now later_now' any_core)))"
proof
  let ?p = "make_proposition command (sanitize_source source) now"
  have thr: "contradiction_threshold core = 0.7"
    unfolding core_def by (simp add: process_all_threshold init_threshold)
  from contra have a: "add_proposition (contradiction_engine core) ?p
      = (Some c, snd (add_proposition (contradiction_engine core) ?p))"
    by (metis prod.collapse)
  have step: "override_active (snd (process_command sha dumps command source now now' core))"
    using severe thr by (simp add: process_command_contradiction[OF valid a])
  have "process_all sha dumps (pre @ (command, source, now, now') # post)
          (FrankensteinCore_init sha dumps boot)
        = process_all sha dumps post (snd (process_command sha dumps command source now now' core))"
    by (simp add: process_all_def process_call_def core_def)
  with step show "is_override_active
           (process_all sha dumps (pre @ (command, source, now, now') # post)
              (FrankensteinCore_init sha dumps boot))"
    by (simp add: is_override_active_def process_all_override)
next
  show "override_active any_core \<longrightarrow>
          override_active (snd (process_command sha dumps later_command later_source later_now later_now' any_core))"
    by (simp add: process_command_override)
qed

theorem override_is_sticky_witness:
  "fst (validate_against_axioms ''maximize profit at all costs'')
   \<and> fst (add_proposition
        (contradiction_engine (process_all plain_digest json_dumps []
           (FrankensteinCore_init plain_digest json_dumps ''2024-01-01T00:00:00'')))
        (make_proposition ''maximize profit at all costs'' (sanitize_source ''user'')
           ''2024-01-01T00:00:01''))
     = Some \<lparr>c_type = SURVIVAL,
              c_propositions = [make_proposition ''maximize profit at all costs'' ''user''
                                  ''2024-01-01T00:00:01''],
              c_explanation = ''Violates survival axiom: '' @ quote
                 @ ''maximize profit at all costs'' @ quote
                 @ '' optimizes for extraction over collective stability'',
              c_severity = 0.8\<rparr>
   \<and> (0.8::real) \<ge> 0.7
   \<and> is_override_active
        (process_all plain_digest json_dumps
           ([] @ (''maximize profit at all costs'', ''user'', ''2024-01-01T00:00:01'',
                  ''2024-01-01T00:00:02'')
               # [(''cats are animals'', ''user'', ''2024-01-01T00:00:03'',
                   ''2024-01-01T00:00:04'')])
           (FrankensteinCore_init plain_digest json_dumps ''2024-01-01T00:00:00''))
   \<and> override_active
        ((FrankensteinCore_init plain_digest json_dumps ''2024-01-01T00:00:00'')
           \<lparr>override_active := True\<rparr>)
   \<and> override_active
        (snd (process_command plain_digest json_dumps ''cats are animals'' ''user''
                ''2024-01-01T00:00:03'' ''2024-01-01T00:00:04''
                ((FrankensteinCore_init plain_digest json_dumps ''2024-01-01T00:00:00'')
                   \<lparr>override_active := True\<rparr>)))"
proof -
  let ?c = "\<lparr>c_type = SURVIVAL,
              c_propositions = [make_proposition ''maximize profit at all costs'' ''user''
                                  ''2024-01-01T00:00:01''],
              c_explanation = ''Violates survival axiom: '' @ quote
                 @ ''maximize profit at all costs'' @ quote
                 @ '' optimizes for extraction over collective stability'',
              c_severity = 0.8\<rparr>"
  have h1: "fst (validate_against_axioms ''maximize profit at all costs'')"
    by code_simp
  have h2: "fst (add_proposition
        (contradiction_engine (process_all plain_digest json_dumps []
           (FrankensteinCore_init plain_digest json_dumps ''2024-01-01T00:00:00'')))
        (make_proposition ''maximize profit at all costs'' (sanitize_source ''user'')
           ''2024-01-01T00:00:01'')) = Some ?c"
    by code_simp
  have h3: "c_severity ?c \<ge> 0.7" by simp
  have h4: "override_active
        ((FrankensteinCore_init plain_digest json_dumps ''2024-01-01T00:00:00'')
           \<lparr>override_active := True\<rparr>)" by simp
  from h1 h2 h4
    override_is_sticky[OF h1 h2 h3, where post = "[(''cats are animals'', ''user'',
        ''2024-01-01T00:00:03'', ''2024-01-01T00:00:04'')]"
      and now' = "''2024-01-01T00:00:02''"
      and any_core = "(FrankensteinCore_init plain_digest json_dumps ''2024-01-01T00:00:00'')
           \<lparr>override_active := True\<rparr>"
      and later_command = "''cats are animals''" and later_source = "''user''"
      and later_now = "''2024-01-01T00:00:03''" and later_now' = "''2024-01-01T00:00:04''"]
  show ?thesis by simp
qed

text \<open>
  Claim C5. \<open>add_validated_fact\<close> leaves the knowledge base as it is for every
  validation whose result is not TRUE. In any state of the pipeline, when the truth
  validator's result for the submitted statement is UNKNOWN or FALSE, the call of
  \<open>process_command\<close> leaves the whole knowledge base unchanged: no entry is created or
  overwritten. And after any calls since the initialization, every entry of the
  knowledge base carries the judgment TRUE.
\<close>

theorem knowledge_base_only_true:
  "(vr_result validation \<noteq> TRUE \<longrightarrow> add_validated_fact statement validation facts = facts)
   \<and> (vr_result (validate_statement (truth_validator (contradiction_engine core)) command)
         \<in> {UNKNOWN, FALSE} \<longrightarrow>
       truth_validator (contradiction_engine
           (snd (process_command sha dumps command source now now' core)))
         = truth_validator (contradiction_engine core))
   \<and> only_true_entries (truth_validator (contradiction_engine
           (process_all sha dumps calls (FrankensteinCore_init sha dumps boot))))"
proof (intro conjI impI)
  assume "vr_result validation \<noteq> TRUE"
  then show "add_validated_fact statement validation facts = facts"
    by (rule add_validated_fact_not_true)
next
  assume "vr_result (validate_statement (truth_validator (contradiction_engine core)) command)
            \<in> {UNKNOWN, FALSE}"
  then have "vr_result (validate_statement (truth_validator (contradiction_engine core)) command)
            \<noteq> TRUE" by auto
  then show "truth_validator (contradiction_engine
           (snd (process_command sha dumps command source now now' core)))
         = truth_validator (contradiction_engine core)"
    by (simp add: process_command_engine add_proposition_facts check_truth_violation_facts
        make_proposition_def)
next
  show "only_true_entries (truth_validator (contradiction_engine
           (process_all sha dumps calls (FrankensteinCore_init sha dumps boot))))"
    by (rule process_all_only_true)
       (simp add: init_engine ContradictionEngine_init_def load_core_facts_only_true)
qed

theorem knowledge_base_only_true_witness:
  "vr_result (simulate_llm_validation ''cats are animals'') \<noteq> TRUE
   \<and> add_validated_fact ''cats are animals'' (simulate_llm_validation ''cats are animals'')
         load_core_facts = load_core_facts
   \<and> vr_result (validate_statement
         (truth_validator (contradiction_engine
            (FrankensteinCore_init plain_digest json_dumps ''2024-01-01T00:00:00'')))
         ''5 + 5 = 11'') \<in> {UNKNOWN, FALSE}
   \<and> truth_validator (contradiction_engine
         (snd (process_command plain_digest json_dumps ''5 + 5 = 11'' ''user''
                 ''2024-01-01T00:00:01'' ''2024-01-01T00:00:02''
                 (FrankensteinCore_init plain_digest json_dumps ''2024-01-01T00:00:00''))))
       = truth_validator (contradiction_engine
           (FrankensteinCore_init plain_digest json_dumps ''2024-01-01T00:00:00''))
   \<and> truth_validator (contradiction_engine
         (process_all plain_digest json_dumps
            [(''5 + 5 = 10'', ''user'', ''2024-01-01T00:00:01'', ''2024-01-01T00:00:02'')]
            (FrankensteinCore_init plain_digest json_dumps ''2024-01-01T00:00:00'')))
         ''5_+_5_=_10''
       = Some \<lparr>vr_result = TRUE, vr_confidence = 1.0,
                vr_reasoning = ''5 + 5 = 10 is mathematically correct'',
                vr_evidence = [''arithmetic'']\<rparr>
   \<and> only_true_entries (truth_validator (contradiction_engine
         (process_all plain_digest json_dumps
            [(''5 + 5 = 10'', ''user'', ''2024-01-01T00:00:01'', ''2024-01-01T00:00:02'')]
            (FrankensteinCore_init plain_digest json_dumps ''2024-01-01T00:00:00''))))"
proof -
  let ?core = "FrankensteinCore_init plain_digest json_dumps ''2024-01-01T00:00:00''"
  have h1: "vr_result (simulate_llm_validation ''cats are animals'') \<noteq> TRUE"
    by (simp add: simulate_llm_validation_def)
  have h2: "vr_result (validate_statement (truth_validator (contradiction_engine ?core))
              ''5 + 5 = 11'') \<in> {UNKNOWN, FALSE}"
    by code_simp
  have h3: "truth_validator (contradiction_engine
         (process_all plain_digest json_dumps
            [(''5 + 5 = 10'', ''user'', ''2024-01-01T00:00:01'', ''2024-01-01T00:00:02'')] ?core))
         ''5_+_5_=_10''
       = Some \<lparr>vr_result = TRUE, vr_confidence = 1.0,
                vr_reasoning = ''5 + 5 = 10 is mathematically correct'',
                vr_evidence = [''arithmetic'']\<rparr>"
    by code_simp
  from h1 h2 h3
    knowledge_base_only_true[where validation = "simulate_llm_validation ''cats are animals''"
      and statement = "''cats are animals''" and facts = load_core_facts
      and core = ?core and command = "''5 + 5 = 11''" and sha = plain_digest
      and dumps = json_dumps and source = "''user''" and now = "''2024-01-01T00:00:01''"
      and now' = "''2024-01-01T00:00:02''" and boot = "''2024-01-01T00:00:00''"
      and calls = "[(''5 + 5 = 10'', ''user'', ''2024-01-01T00:00:01'', ''2024-01-01T00:00:02'')]"]
  show ?thesis by blast
qed

section \<open>Tampering with the ledger\<close>

lemma verify_loop_append:
  "verify_loop sha dumps i prev (xs @ ys) =
     (if fst (verify_loop sha dumps i prev xs)
      then verify_loop sha dumps (i + length xs) (if xs = [] then prev else pr_hash (last xs)) ys
      else verify_loop sha dumps i prev xs)"
  by (induction xs arbitrary: i prev) auto

lemma record_digest_hashed_fields:
  "hashed_fields r' = hashed_fields r \<Longrightarrow> record_digest sha dumps r' = record_digest sha dumps r"
  by (simp add: hashed_fields_def record_digest_def)

lemma one_field_changed_cases:
  assumes "one_field_changed r r'"
  shows "pr_prev_hash r' \<noteq> pr_prev_hash r
       \<or> (pr_hash r' \<noteq> pr_hash r \<and> hashed_fields r' = hashed_fields r)
       \<or> (pr_hash r' = pr_hash r \<and> hashed_fields r' \<noteq> hashed_fields r)"
proof -
  obtain t p s c x h v where r: "r = \<lparr>pr_timestamp = t, pr_premises = p, pr_inference_steps = s,
      pr_conclusion = c, pr_counterexample = x, pr_hash = h, pr_prev_hash = v\<rparr>"
    by (cases r) auto
  obtain t' p' s' c' x' h' v' where r': "r' = \<lparr>pr_timestamp = t', pr_premises = p',
      pr_inference_steps = s', pr_conclusion = c', pr_counterexample = x', pr_hash = h',
      pr_prev_hash = v'\<rparr>"
    by (cases r') auto
  from assms show ?thesis
    unfolding one_field_changed_def hashed_fields_def r r' by auto
qed

text \<open>
  A digest and an encoder that are both injective never collide on a changed record.
\<close>

lemma injective_no_collision:
  assumes sha: "inj sha"
    and dumps: "\<And>t p s c x h t' p' s' c' x' h'.
                  dumps t p s c x h = dumps t' p' s' c' x' h' \<Longrightarrow>
                  (t, p, s, c, x, h) = (t', p', s', c', x', h')"
    and ch: "one_field_changed r r'"
  shows "no_collision sha dumps r r'"
proof -
  have "hashed_fields r' = hashed_fields r"
    if "record_digest sha dumps r' = record_digest sha dumps r"
  proof -
    from that sha have "dumps (pr_timestamp r') (pr_premises r') (pr_inference_steps r')
        (pr_conclusion r') (pr_counterexample r') (pr_prev_hash r')
      = dumps (pr_timestamp r) (pr_premises r) (pr_inference_steps r)
        (pr_conclusion r) (pr_counterexample r) (pr_prev_hash r)"
      by (simp add: record_digest_def compute_hash_def inj_eq)
    from dumps[OF this] show ?thesis by (simp add: hashed_fields_def)
  qed
  with one_field_changed_cases[OF ch] show ?thesis
    unfolding no_collision_def by blast
qed

lemma tampered_record_fails:
  assumes ok: "verify_loop sha dumps i prev (r # rest) = (True, msg)"
    and ch: "one_field_changed r r'"
    and nc: "no_collision sha dumps r r'"
  shows "verify_loop sha dumps i prev (r' # rest) =
           (False, if pr_prev_hash r' \<noteq> pr_prev_hash r
                   then ''Chain broken at record '' @ str_nat i
                   else ''Record '' @ str_nat i @ '' hash mismatch - content tampered'')"
proof -
  from ok have link: "pr_prev_hash r = Some prev" and h: "pr_hash r = record_digest sha dumps r"
    by (auto split: if_splits)
  show ?thesis
  proof (cases "pr_prev_hash r' = pr_prev_hash r")
    case False
    with link show ?thesis by simp
  next
    case True
    with one_field_changed_cases[OF ch]
    have "(pr_hash r' \<noteq> pr_hash r \<and> hashed_fields r' = hashed_fields r)
       \<or> (pr_hash r' = pr_hash r \<and> hashed_fields r' \<noteq> hashed_fields r)" by simp
    then have "pr_hash r' \<noteq> record_digest sha dumps r'"
    proof
      assume a: "pr_hash r' \<noteq> pr_hash r \<and> hashed_fields r' = hashed_fields r"
      then have "record_digest sha dumps r' = record_digest sha dumps r"
        by (intro record_digest_hashed_fields) simp
      with a h show ?thesis by simp
    next
      assume a: "pr_hash r' = pr_hash r \<and> hashed_fields r' \<noteq> hashed_fields r"
      with nc True have "record_digest sha dumps r' \<noteq> record_digest sha dumps r"
        by (simp add: no_collision_def)
      with a h show ?thesis by simp
    qed
    with True link show ?thesis by simp
  qed
qed

lemma verify_loop_messages:
  "fst (verify_loop sha dumps i prev rs) \<Longrightarrow>
     verify_loop sha dumps i prev rs = (True, ''Ledger integrity verified'')"
  by (induction rs arbitrary: i prev) (auto split: if_splits)

lemma tampered_chain_fails:
  assumes ok: "fst (verify_loop sha dumps 0 g rs)"
    and i: "i < length rs"
    and ch: "one_field_changed (rs ! i) r'"
    and nc: "no_collision sha dumps (rs ! i) r'"
  shows "verify_loop sha dumps 0 g (rs[i := r']) =
           (False, if pr_prev_hash r' \<noteq> pr_prev_hash (rs ! i)
                   then ''Chain broken at record '' @ str_nat i
                   else ''Record '' @ str_nat i @ '' hash mismatch - content tampered'')"
proof -
  define xs where "xs = take i rs"
  define rest where "rest = drop (Suc i) rs"
  define r where "r = rs ! i"
  define prev where "prev = (if xs = [] then g else pr_hash (last xs))"
  have split: "xs @ r # rest = rs"
    unfolding xs_def rest_def r_def using i by (rule id_take_nth_drop[symmetric])
  have upd: "rs[i := r'] = xs @ r' # rest"
    unfolding xs_def rest_def using i by (rule upd_conv_take_nth_drop)
  have len: "length xs = i" unfolding xs_def using i by simp
  have whole: "fst (verify_loop sha dumps 0 g (xs @ r # rest))"
    by (simp only: split ok)
  have pre: "fst (verify_loop sha dumps 0 g xs)"
  proof (rule ccontr)
    assume n: "\<not> fst (verify_loop sha dumps 0 g xs)"
    then have "verify_loop sha dumps 0 g (xs @ r # rest) = verify_loop sha dumps 0 g xs"
      by (simp only: verify_loop_append if_False)
    with whole n show False by simp
  qed
  have "verify_loop sha dumps 0 g (xs @ r # rest) = verify_loop sha dumps i prev (r # rest)"
    using pre by (simp add: verify_loop_append len prev_def)
  with whole have "fst (verify_loop sha dumps i prev (r # rest))"
    by simp
  then have "verify_loop sha dumps i prev (r # rest) = (True, ''Ledger integrity verified'')"
    by (rule verify_loop_messages)
  from tampered_record_fails[OF this ch[folded r_def] nc[folded r_def]]
  have "verify_loop sha dumps i prev (r' # rest) =
           (False, if pr_prev_hash r' \<noteq> pr_prev_hash r
                   then ''Chain broken at record '' @ str_nat i
                   else ''Record '' @ str_nat i @ '' hash mismatch - content tampered'')" .
  moreover have "verify_loop sha dumps 0 g (xs @ r' # rest) = verify_loop sha dumps i prev (r' # rest)"
    using pre by (simp add: verify_loop_append len prev_def)
  ultimately show ?thesis
    by (simp only: upd r_def)
qed

text \<open>
  Claim C2. Take the ledger after any sequence of \<open>append\<close> calls on a fresh ledger,
  any index \<open>i\<close> of a stored record, and any record \<open>r'\<close> that differs from the
  stored one in exactly one field (time stamp, premises, inference steps, conclusion,
  counterexample, hash or prev\_hash). With \<open>r'\<close> in place of the stored record,
  \<open>verify_integrity\<close> fails and its message names the index \<open>i\<close>: a broken chain
  at record \<open>i\<close> when \<open>prev_hash\<close> was changed, a hash mismatch at record \<open>i\<close>
  otherwise. The digest and the encoder are the library's; the one thing asked of them
  is \<open>no_collision\<close>: when one of the five content fields was changed, the digest
  of the changed record differs from that of the stored one. Nothing is asked when
  \<open>hash\<close> or \<open>prev_hash\<close> was changed.
\<close>

theorem tampering_is_detected:
  fixes sha :: digest and dumps :: encoder and calls :: "append_call list"
  defines "L \<equiv> append_all sha dumps calls (ProofLedger_init sha)"
  assumes i: "i < length (records L)"
    and ch: "one_field_changed (records L ! i) r'"
    and nc: "no_collision sha dumps (records L ! i) r'"
  shows "verify_integrity sha dumps (L\<lparr>records := (records L)[i := r']\<rparr>) =
           (False, if pr_prev_hash r' \<noteq> pr_prev_hash (records L ! i)
                   then ''Chain broken at record '' @ str_nat i
                   else ''Record '' @ str_nat i @ '' hash mismatch - content tampered'')"
proof -
  have "chain_ok sha dumps L"
    unfolding L_def by (rule chain_ok_append_all) (rule chain_ok_init)
  then have ok: "fst (verify_loop sha dumps 0 (genesis_hash L) (records L))"
    by (simp add: chain_ok_def)
  have ne: "(records L)[i := r'] \<noteq> []" using i by auto
  have "verify_integrity sha dumps (L\<lparr>records := (records L)[i := r']\<rparr>) =
          verify_loop sha dumps 0 (genesis_hash L) ((records L)[i := r'])"
    using ne by (simp add: verify_integrity_def)
  also have "\<dots> = (False, if pr_prev_hash r' \<noteq> pr_prev_hash (records L ! i)
                   then ''Chain broken at record '' @ str_nat i
                   else ''Record '' @ str_nat i @ '' hash mismatch - content tampered'')"
    by (rule tampered_chain_fails[OF ok i ch nc])
  finally show ?thesis .
qed

theorem tampering_is_detected_witness:
  "(let L = append_all plain_digest json_dumps
              [(''2024-01-01T00:00:00'', [''cats are animals''],
                [''Axiom validation: PASS'', ''Contradiction check: PASS''], ''ACCEPTED'', None),
               (''2024-01-01T00:00:01'', [''   ''], [''Axiom validation''], ''REFUSED'',
                Some ''AXIOM VIOLATION: Empty proposition violates identity'')]
              (ProofLedger_init plain_digest);
        r' = (records L ! 1)\<lparr>pr_conclusion := ''ACCEPTED''\<rparr>
    in 1 < length (records L)
       \<and> one_field_changed (records L ! 1) r'
       \<and> no_collision plain_digest json_dumps (records L ! 1) r'
       \<and> verify_integrity plain_digest json_dumps (L\<lparr>records := (records L)[1 := r']\<rparr>)
           = (False, ''Record 1 hash mismatch - content tampered''))"
proof -
  define L where "L = append_all plain_digest json_dumps
              [(''2024-01-01T00:00:00'', [''cats are animals''],
                [''Axiom validation: PASS'', ''Contradiction check: PASS''], ''ACCEPTED'', None),
               (''2024-01-01T00:00:01'', [''   ''], [''Axiom validation''], ''REFUSED'',
                Some ''AXIOM VIOLATION: Empty proposition violates identity'')]
              (ProofLedger_init plain_digest)"
  define r' where "r' = (records L ! 1)\<lparr>pr_conclusion := ''ACCEPTED''\<rparr>"
  have h1: "1 < length (records L)"
    unfolding L_def by code_simp
  have h2: "one_field_changed (records L ! 1) r'"
    unfolding r'_def L_def by code_simp
  have h3: "no_collision plain_digest json_dumps (records L ! 1) r'"
    unfolding r'_def L_def by code_simp
  have same: "pr_prev_hash r' = pr_prev_hash (records L ! 1)"
    unfolding r'_def by simp
  have s1: "str_nat 1 = ''1''" by code_simp
  from tampering_is_detected[OF h1[unfolded L_def] h2[unfolded L_def] h3[unfolded L_def]]
  have "verify_integrity plain_digest json_dumps (L\<lparr>records := (records L)[1 := r']\<rparr>)
           = (False, ''Record 1 hash mismatch - content tampered'')"
    unfolding L_def[symmetric] using same s1 by simp
  with h1 h2 h3 show ?thesis
    unfolding L_def[symmetric] r'_def[symmetric] Let_def by simp
qed

section \<open>Scenarios on a fresh system\<close>

text \<open>
  Claim C7. On a freshly initialized system, for every digest, encoder and clock,
  submitting \<open>5 + 5 = 10\<close> is accepted, and submitting \<open>5 + 5 = 11\<close> next is refused:
  the refusal is a logical contradiction of severity 0.95 whose reason says that the
  statement is false because 5 + 5 does not equal the stated result, it is stored as the
  counterexample of the ledger's last record, and the status then counts exactly one
  contradiction.
\<close>

theorem five_plus_five_scenario:
  fixes sha :: digest and dumps :: encoder
    and boot :: string and now1 :: string and now1' :: string and now2 :: string and now2' :: string
  defines "first \<equiv> process_command sha dumps ''5 + 5 = 10'' ''user'' now1 now1'
                       (FrankensteinCore_init sha dumps boot)"
  defines "second \<equiv> process_command sha dumps ''5 + 5 = 11'' ''user'' now2 now2' (snd first)"
  shows "fst first = (True, ''Command accepted: 5 + 5 = 10'')
       \<and> fst second =
           (False,
            ''REFUSAL: Logical contradiction through inference'' @ newline
            @ ''Reason: Statement is false: 5 + 5 does not equal the stated result'' @ newline
            @ ''Severity: 0.95'' @ newline
            @ newline @ ''Counterexample:'' @ newline
            @ ''  1. [user] 5 + 5 = 11'' @ newline
            @ newline @ ''Logic is master. This command violates coherence.'')
       \<and> pr_conclusion (last (get_proof_history (snd second))) = ''REFUSED''
       \<and> pr_counterexample (last (get_proof_history (snd second))) = Some (snd (fst second))
       \<and> contradictions_detected (get_status sha dumps (snd second)) = 1"
  unfolding first_def second_def
  by code_simp

text \<open>
  Claim C4, as amended. On a freshly initialized system, whose ledger already holds the
  record of the initialization, submitting \<open>cats are animals\<close> is accepted; the ledger
  then has two records, the first with the conclusion of the initialization and the
  second with the conclusion \<open>ACCEPTED\<close>.
\<close>

theorem cats_are_animals_scenario:
  fixes sha :: digest and dumps :: encoder and boot :: string and now :: string and now' :: string
  defines "outcome \<equiv> process_command sha dumps ''cats are animals'' ''user'' now now'
                         (FrankensteinCore_init sha dumps boot)"
  shows "fst outcome = (True, ''Command accepted: cats are animals'')
       \<and> get_record_count (proof_ledger (snd outcome)) = 2
       \<and> map pr_conclusion (get_proof_history (snd outcome)) =
           [''Frankenstein Core initialized - Logic is master'', ''ACCEPTED'']"
  unfolding outcome_def
  by code_simp

text \<open>
  The claim as first stated (ledger length 1, first conclusion \<open>Accepted\<close>) fails:
  \<open>__init__\<close> logs the initialization, so the ledger has two records after the first
  command and the first entry of the history is the initialization record.
\<close>

theorem cats_are_animals_counterexample:
  "get_record_count (proof_ledger (snd (process_command plain_digest json_dumps
       ''cats are animals'' ''user'' ''2024-01-01T00:00:01'' ''2024-01-01T00:00:02''
       (FrankensteinCore_init plain_digest json_dumps ''2024-01-01T00:00:00'')))) = 2
   \<and> pr_conclusion (get_proof_history (snd (process_command plain_digest json_dumps
       ''cats are animals'' ''user'' ''2024-01-01T00:00:01'' ''2024-01-01T00:00:02''
       (FrankensteinCore_init plain_digest json_dumps ''2024-01-01T00:00:00''))) ! 0)
     = ''Frankenstein Core initialized - Logic is master''"
  by code_simp

end
